theory Spec2Isabelle
  imports Complex_Main
begin

section \<open>Python values shared by the functions of General\_Functions.py\<close>

text \<open>
  The exceptions the modelled functions can raise. A function that may raise returns
  \<open>py_error + 'a\<close>, with \<open>Inl\<close> for the exception.
\<close>

datatype py_error = ValueError | KeyError | IndexError | NameError | ZeroDivisionError

text \<open>
  A Python \<open>dict\<close> is an association list with pairwise distinct keys, kept in insertion
  order: \<open>d[k] = v\<close> overwrites the value in place when \<open>k\<close> is present and appends the
  pair otherwise.
\<close>

type_synonym ('k, 'v) dict = "('k \<times> 'v) list"

fun dict_set :: "('k, 'v) dict \<Rightarrow> 'k \<Rightarrow> 'v \<Rightarrow> ('k, 'v) dict" where
  "dict_set [] k v = [(k, v)]"
| "dict_set ((k', v') # d) k v =
     (if k' = k then (k, v) # d else (k', v') # dict_set d k v)"

definition dict_keys :: "('k, 'v) dict \<Rightarrow> 'k list" where
  "dict_keys d = map fst d"

text \<open>\<open>del d[k]\<close>, used by the source only after the test \<open>k in d\<close>.\<close>

definition dict_del :: "('k, 'v) dict \<Rightarrow> 'k \<Rightarrow> ('k, 'v) dict" where
  "dict_del d k = filter (\<lambda>p. fst p \<noteq> k) d"

text \<open>
  \<open>d1 == d2\<close> on dicts: the same keys with the same values, whatever the insertion order.
  On association lists with distinct keys that is equality of the sets of pairs.
\<close>

definition dict_eq :: "('k, 'v) dict \<Rightarrow> ('k, 'v) dict \<Rightarrow> bool" where
  "dict_eq d1 d2 = (set d1 = set d2)"

text \<open>
  \<open>itertools.combinations_with_replacement(xs, r)\<close>: the \<open>r\<close>-length tuples of elements
  of \<open>xs\<close> whose positions in \<open>xs\<close> are non-decreasing, in lexicographic order of the
  positions.
\<close>

fun combinations_with_replacement :: "'a list \<Rightarrow> nat \<Rightarrow> 'a list list" where
  "combinations_with_replacement xs 0 = [[]]"
| "combinations_with_replacement [] (Suc r) = []"
| "combinations_with_replacement (x # xs) (Suc r) =
     map ((#) x) (combinations_with_replacement (x # xs) r)
     @ combinations_with_replacement xs (Suc r)"

text \<open>\<open>int(x)\<close> on a float truncates towards zero.\<close>

definition py_int_of_float :: "real \<Rightarrow> int" where
  "py_int_of_float x = (if 0 \<le> x then \<lfloor>x\<rfloor> else \<lceil>x\<rceil>)"

section \<open>count\_seq\_letters and calculate\_comp\_from\_mass\<close>

text \<open>
  \<open>count_seq_letters\<close> walks the string; at every character that differs from the one
  before it, it stores \<open>string.count(i)\<close> under the character (under \<open>lS\<close> for \<open>L\<close>, under
  \<open>eS\<close> for \<open>E\<close>). \<open>current_letter\<close> starts as the empty string, here \<open>None\<close>.
\<close>

fun count_seq_loop ::
  "string \<Rightarrow> string \<Rightarrow> char option \<Rightarrow> (string, int) dict \<Rightarrow> (string, int) dict" where
  "count_seq_loop whole [] current_letter friendly_letters = friendly_letters"
| "count_seq_loop whole (i # rest) current_letter friendly_letters =
     (if Some i \<noteq> current_letter then
        (let count = int (count_list whole i);
             d1 = (if i = CHR ''L'' then dict_set friendly_letters ''lS'' count
                   else friendly_letters);
             d2 = (if i = CHR ''E'' then dict_set d1 ''eS'' count
                   else if i \<noteq> CHR ''L'' \<and> i \<noteq> CHR ''E'' then dict_set d1 [i] count
                   else d1)
         in count_seq_loop whole rest (Some i) d2)
      else count_seq_loop whole rest current_letter friendly_letters)"

definition count_seq_letters :: "string \<Rightarrow> (string, int) dict" where
  "count_seq_letters string = count_seq_loop string string None []"

text \<open>
  \<open>calculate_comp_from_mass\<close>. The mass of a composition comes from pyteomics
  (\<open>mass.calculate_mass\<close>), which is not part of the repository: it is the parameter
  \<open>calculate_mass\<close>. The pair \<open>closest\<close> is the composition and its mass; the initial
  one is \<open>({}, 0)\<close>.
\<close>

definition closest_step ::
  "((string, int) dict \<Rightarrow> real) \<Rightarrow> real \<Rightarrow> (string, int) dict \<times> real \<Rightarrow> string
     \<Rightarrow> (string, int) dict \<times> real" where
  "closest_step calculate_mass tag_mass closest i =
     (let seq_readable = count_seq_letters i;
          test_tag_mass = calculate_mass seq_readable
      in if \<bar>test_tag_mass - tag_mass\<bar> < \<bar>snd closest - tag_mass\<bar>
         then (seq_readable, test_tag_mass) else closest)"

text \<open>
  The loop \<open>while atoms_number > atoms_number/2\<close>, the right-hand side being a float
  division; the body runs over the combinations of that size and then decrements.
\<close>

function comp_from_mass_loop ::
  "((string, int) dict \<Rightarrow> real) \<Rightarrow> real \<Rightarrow> int \<Rightarrow> (string, int) dict \<times> real
     \<Rightarrow> (string, int) dict \<times> real" where
  "comp_from_mass_loop calculate_mass tag_mass atoms_number closest =
     (if real_of_int atoms_number > real_of_int atoms_number / 2 then
        comp_from_mass_loop calculate_mass tag_mass (atoms_number - 1)
          (foldl (closest_step calculate_mass tag_mass) closest
             (combinations_with_replacement ''CONH'' (nat atoms_number)))
      else closest)"
  by pat_completeness auto
termination
  by (relation "measure (\<lambda>(cm, t, n, c). nat n)") auto

definition calculate_comp_from_mass ::
  "((string, int) dict \<Rightarrow> real) \<Rightarrow> real \<Rightarrow> (string, int) dict \<times> real" where
  "calculate_comp_from_mass calculate_mass tag_mass =
     comp_from_mass_loop calculate_mass tag_mass (py_int_of_float (tag_mass / 5)) ([], 0)"

section \<open>rt\_noise\_level\_parameters\_set\<close>

text \<open>\<open>numpy.std\<close>: the population standard deviation.\<close>

definition np_mean :: "real list \<Rightarrow> real" where
  "np_mean xs = sum_list xs / real (length xs)"

definition np_std :: "real list \<Rightarrow> real" where
  "np_std xs = sqrt (np_mean (map (\<lambda>x. \<bar>x - np_mean xs\<bar>\<^sup>2) xs))"

text \<open>\<open>min\<close> and \<open>max\<close> of a list; the source calls them on non-empty lists only.\<close>

fun py_min :: "real list \<Rightarrow> real" where
  "py_min [] = 0"
| "py_min (x # xs) = fold min xs x"

fun py_max :: "real list \<Rightarrow> real" where
  "py_max [] = 0"
| "py_max (x # xs) = fold max xs x"

text \<open>The result is a float in mode \<open>whole\<close> and a triple in mode \<open>segments\<close>.\<close>

datatype noise_result = Whole real | Segments real real real

text \<open>The body of the loop over \<open>segments_list\<close>: the value appended to \<open>noise\<close>.\<close>

definition segment_noise :: "real list \<Rightarrow> real" where
  "segment_noise j =
     (if length j = 0 then 1
      else
        (let intensity_std = np_std j;
             noise_threshold = 2 * intensity_std
         in if (py_min j \<noteq> 0 \<and> noise_threshold > py_min j * 5)
               \<or> noise_threshold > py_max j * (1 / 2)
            then (if py_min j \<noteq> 0 then py_min j else 1)
            else noise_threshold))"

text \<open>
  \<open>mz_int\<close> is the pair of the m/z list and the intensity list. A mode other than the two
  strings leaves \<open>segments_list\<close> unbound; \<open>mz_int[0][-1]\<close> raises on an empty m/z list.
\<close>

definition rt_noise_level_parameters_set ::
  "real list \<times> real list \<Rightarrow> string \<Rightarrow> py_error + noise_result" where
  "rt_noise_level_parameters_set mz_int mode =
     (let segments_list =
            (if mode = ''whole'' then Some [sort (snd mz_int)]
             else if mode = ''segments'' then
               (let first_quarter_end = length (snd mz_int) div 4;
                    last_quarter_begin = first_quarter_end * 3;
                    int_list_first_quarter = take first_quarter_end (snd mz_int);
                    int_list_last_quarter = drop last_quarter_begin (snd mz_int)
                in Some [sort int_list_first_quarter, sort int_list_last_quarter])
             else None)
      in case segments_list of
           None \<Rightarrow> Inl NameError
         | Some segs \<Rightarrow>
             (let noise = map segment_noise segs
              in if length noise = 1 then Inr (Whole (noise ! 0))
                 else if fst mz_int = [] then Inl IndexError
                 else Inr (Segments (noise ! 0) (noise ! 1) (last (fst mz_int)))))"

section \<open>linear\_regression\<close>



section \<open>The monosaccharide table and glycan\_to\_atoms\<close>

text \<open>
  The residue compositions of the table are dict literals with the four keys \<open>C\<close>, \<open>O\<close>,
  \<open>N\<close>, \<open>H\<close>, and so is the accumulator \<open>atoms\<close> of \<open>glycan_to_atoms\<close>: a record with
  these four fields. An entry of the table is the tuple of the full name, the molecular
  formula and the residue composition.
\<close>

record atoms =
  atom_C :: int
  atom_O :: int
  atom_N :: int
  atom_H :: int

record mono =
  mono_name :: string
  mono_formula :: string
  mono_residue :: atoms

type_synonym mono_table = "(string, mono) dict"

definition monosaccharides :: mono_table where
  "monosaccharides =
     [(''H'', \<lparr>mono_name = ''Hexose'', mono_formula = ''C6O6H12'',
              mono_residue = \<lparr>atom_C = 6, atom_O = 5, atom_N = 0, atom_H = 10\<rparr>\<rparr>),
      (''N'', \<lparr>mono_name = ''N-Acetyl Hexosamine'', mono_formula = ''C8O6NH15'',
              mono_residue = \<lparr>atom_C = 8, atom_O = 5, atom_N = 1, atom_H = 13\<rparr>\<rparr>),
      (''S'', \<lparr>mono_name = ''Acetyl Neuraminic Acid'', mono_formula = ''C11O9NH19'',
              mono_residue = \<lparr>atom_C = 11, atom_O = 8, atom_N = 1, atom_H = 17\<rparr>\<rparr>),
      (''lS'', \<lparr>mono_name = ''Lactonized Acetyl Neuraminic Acid alpha2,3 bound'',
               mono_formula = ''C11O8N2H20'',
               mono_residue = \<lparr>atom_C = 11, atom_O = 7, atom_N = 2, atom_H = 18\<rparr>\<rparr>),
      (''eS'', \<lparr>mono_name = ''Ethyl-Esterified Acetyl Neuraminic Acid alpha2,6 bound'',
               mono_formula = ''C13O9NH23'',
               mono_residue = \<lparr>atom_C = 13, atom_O = 8, atom_N = 1, atom_H = 21\<rparr>\<rparr>),
      (''F'', \<lparr>mono_name = ''Fucose'', mono_formula = ''C6O5H12'',
              mono_residue = \<lparr>atom_C = 6, atom_O = 4, atom_N = 0, atom_H = 10\<rparr>\<rparr>),
      (''G'', \<lparr>mono_name = ''Glycolyl Neuraminic Acid'', mono_formula = ''C11O10NH19'',
              mono_residue = \<lparr>atom_C = 11, atom_O = 9, atom_N = 1, atom_H = 17\<rparr>\<rparr>)]"

text \<open>\<open>monosaccharides[i][2]['C'] += c; monosaccharides[i][2]['H'] += h\<close> on one entry.\<close>

definition add_CH :: "int \<Rightarrow> int \<Rightarrow> mono \<Rightarrow> mono" where
  "add_CH c h m =
     m\<lparr>mono_residue :=
         (mono_residue m)\<lparr>atom_C := atom_C (mono_residue m) + c,
                          atom_H := atom_H (mono_residue m) + h\<rparr>\<rparr>"

text \<open>The body of the loop \<open>for i in monosaccharides\<close> of the permethylation branch.\<close>

definition permethylate_entry :: "string \<times> mono \<Rightarrow> string \<times> mono" where
  "permethylate_entry e =
     (let i = fst e;
          m1 = (if i = ''H'' then add_CH 3 6 (snd e) else snd e);
          m2 = (if i = ''N'' then add_CH 3 6 m1 else m1);
          m3 = (if i = ''F'' then add_CH 2 4 m2 else m2);
          m4 = (if i = ''S'' \<or> i = ''G'' then add_CH 5 10 m3 else m3)
      in (i, m4))"

definition permethylate :: "mono_table \<Rightarrow> mono_table" where
  "permethylate table = map permethylate_entry table"

text \<open>
  The loop \<open>for i in glycan_composition\<close>: the key \<open>T\<close> is skipped, a key that the table
  lacks raises \<open>KeyError\<close>, and otherwise each of the four atom counts grows by the
  residue's count times the number of residues.
\<close>

fun atoms_loop :: "mono_table \<Rightarrow> (string, int) dict \<Rightarrow> atoms \<Rightarrow> py_error + atoms" where
  "atoms_loop table [] atoms = Inr atoms"
| "atoms_loop table ((i, n) # rest) atoms =
     (if i = ''T'' then atoms_loop table rest atoms
      else (case map_of table i of
              None \<Rightarrow> Inl KeyError
            | Some m \<Rightarrow>
                atoms_loop table rest
                  \<lparr>atom_C = atom_C atoms + atom_C (mono_residue m) * n,
                   atom_O = atom_O atoms + atom_O (mono_residue m) * n,
                   atom_N = atom_N atoms + atom_N (mono_residue m) * n,
                   atom_H = atom_H atoms + atom_H (mono_residue m) * n\<rparr>))"

text \<open>
  \<open>glycan_to_atoms\<close> reads and writes the module-level table: the model takes the table
  as it is before the call and returns the result together with the table after it.
\<close>

definition glycan_to_atoms ::
  "mono_table \<Rightarrow> (string, int) dict \<Rightarrow> bool \<Rightarrow> (py_error + atoms) \<times> mono_table" where
  "glycan_to_atoms table glycan_composition permethylated =
     (let table' = (if permethylated then permethylate table else table)
      in (atoms_loop table' glycan_composition
            \<lparr>atom_C = 0, atom_O = 0, atom_N = 0, atom_H = 0\<rparr>, table'))"

text \<open>
  The atoms that one run of the permethylation branch adds to the entry of a residue key:
  what \<open>permethylate_entry\<close> does to an entry, as a function of its key.
\<close>

definition incr_C :: "string \<Rightarrow> int" where
  "incr_C i =
     (if i = ''H'' \<or> i = ''N'' then 3 else if i = ''F'' then 2
      else if i = ''S'' \<or> i = ''G'' then 5 else 0)"

definition incr_H :: "string \<Rightarrow> int" where
  "incr_H i =
     (if i = ''H'' \<or> i = ''N'' then 6 else if i = ''F'' then 4
      else if i = ''S'' \<or> i = ''G'' then 10 else 0)"

section \<open>gen\_adducts\_combo\<close>

text \<open>
  The loop that turns one combination \<open>i\<close> into \<open>temp_dict\<close>: each occurrence of a symbol
  adds 1 to its count when \<open>max_charge > 0\<close> and subtracts 1 otherwise.
\<close>

definition temp_dict_step :: "int \<Rightarrow> (string, int) dict \<Rightarrow> string \<Rightarrow> (string, int) dict" where
  "temp_dict_step max_charge temp_dict j =
     (case map_of temp_dict j of
        None \<Rightarrow> (if max_charge > 0 then dict_set temp_dict j 1 else dict_set temp_dict j (- 1))
      | Some v \<Rightarrow>
          (if max_charge > 0 then dict_set temp_dict j (v + 1) else dict_set temp_dict j (v - 1)))"

definition make_temp_dict :: "int \<Rightarrow> string list \<Rightarrow> (string, int) dict" where
  "make_temp_dict max_charge i = foldl (temp_dict_step max_charge) [] i"

text \<open>
  The inner loop \<open>for j in i\<close> of the filter: \<open>True\<close> as soon as a count exceeds the
  declared maximum in absolute value (the \<open>break\<close>); \<open>adducts[j]\<close> raises on a missing key.
\<close>

fun exceeds :: "(string, int) dict \<Rightarrow> (string, int) dict \<Rightarrow> py_error + bool" where
  "exceeds adducts [] = Inr False"
| "exceeds adducts ((j, v) # rest) =
     (case map_of adducts j of
        None \<Rightarrow> Inl KeyError
      | Some a \<Rightarrow> (if \<bar>v\<bar> > \<bar>a\<bar> then Inr True else exceeds adducts rest))"

text \<open>
  The loop that fills \<open>to_remove\<close>: a combination is appended when it exceeds a maximum,
  and appended (again) when it is in \<open>exclusions\<close>; the two tests are not exclusive.
\<close>

fun to_remove_loop ::
  "(string, int) dict \<Rightarrow> (string, int) dict list \<Rightarrow> (string, int) dict list
     \<Rightarrow> py_error + (string, int) dict list" where
  "to_remove_loop adducts exclusions [] = Inr []"
| "to_remove_loop adducts exclusions (i # rest) =
     (case exceeds adducts i of
        Inl e \<Rightarrow> Inl e
      | Inr ex \<Rightarrow>
          (case to_remove_loop adducts exclusions rest of
             Inl e \<Rightarrow> Inl e
           | Inr to_remove \<Rightarrow>
               Inr ((if ex then [i] else [])
                    @ (if list_ex (\<lambda>x. dict_eq x i) exclusions then [i] else [])
                    @ to_remove)))"

text \<open>\<open>list.remove(x)\<close>: drops the first element equal to \<open>x\<close>, raises when there is none.\<close>

fun list_remove ::
  "(string, int) dict \<Rightarrow> (string, int) dict list \<Rightarrow> py_error + (string, int) dict list" where
  "list_remove x [] = Inl ValueError"
| "list_remove x (y # ys) =
     (if dict_eq y x then Inr ys
      else (case list_remove x ys of Inl e \<Rightarrow> Inl e | Inr ys' \<Rightarrow> Inr (y # ys')))"

text \<open>The loop \<open>for i in to_remove: adducts_combo_dict.remove(i)\<close>.\<close>

fun remove_loop ::
  "(string, int) dict list \<Rightarrow> (string, int) dict list \<Rightarrow> py_error + (string, int) dict list" where
  "remove_loop [] adducts_combo_dict = Inr adducts_combo_dict"
| "remove_loop (i # to_remove) adducts_combo_dict =
     (case list_remove i adducts_combo_dict of
        Inl e \<Rightarrow> Inl e
      | Inr rest \<Rightarrow> remove_loop to_remove rest)"

definition gen_adducts_combo ::
  "(string, int) dict \<Rightarrow> (string, int) dict list \<Rightarrow> int
     \<Rightarrow> py_error + (string, int) dict list" where
  "gen_adducts_combo adducts exclusions max_charge =
     (let adducts_list = map fst adducts;
          adducts_combo =
            concat (map (\<lambda>i. combinations_with_replacement adducts_list i)
                      [1..<nat \<bar>max_charge\<bar> + 1]);
          adducts_combo_dict = map (make_temp_dict max_charge) adducts_combo
      in case to_remove_loop adducts exclusions adducts_combo_dict of
           Inl e \<Rightarrow> Inl e
         | Inr to_remove \<Rightarrow> remove_loop to_remove adducts_combo_dict)"

section \<open>calculate\_isotopic\_pattern\<close>






section \<open>form\_to\_comp, form\_to\_charge and comp\_to\_formula\<close>

text \<open>
  Strings are lists of 8-bit characters; the digits are the ASCII digits (on a \<open>str\<close>
  pattern Python's \<open>\d\<close> also matches the other Unicode decimal digits, which \<open>int\<close>
  reads too).
\<close>

definition is_digit :: "char \<Rightarrow> bool" where
  "is_digit c = (c \<in> set ''0123456789'')"

definition digit_val :: "char \<Rightarrow> nat" where
  "digit_val c = of_char c - 48"


definition digits_val :: "string \<Rightarrow> nat" where
  "digits_val ds = foldl (\<lambda>n c. 10 * n + digit_val c) 0 ds"

text \<open>
  \<open>int(s)\<close> on the strings the parser builds: an optional minus sign and one or more
  digits; anything else raises \<open>ValueError\<close>, here \<open>None\<close>. (Python's \<open>int\<close> also accepts
  a plus sign, surrounding white space and underscores between digits.)
\<close>

definition py_int :: "string \<Rightarrow> int option" where
  "py_int s =
     (case s of
        [] \<Rightarrow> None
      | c # ds \<Rightarrow>
          (if c = CHR ''-'' then
             (if ds \<noteq> [] \<and> list_all is_digit ds then Some (- int (digits_val ds)) else None)
           else if list_all is_digit s then Some (int (digits_val s)) else None))"




text \<open>
  \<open>re.split('(\d+)', string)\<close>: the text before the first run of digits, the run itself
  (the pattern has a capturing group), and the split of what follows the run; a string
  without digits is returned whole.
\<close>

function re_split :: "string \<Rightarrow> string list" where
  "re_split s =
     (let rest = dropWhile (\<lambda>c. \<not> is_digit c) s
      in if rest = [] then [s]
         else takeWhile (\<lambda>c. \<not> is_digit c) s # takeWhile is_digit rest
                # re_split (dropWhile is_digit rest))"
  by pat_completeness auto
termination
proof (relation "measure length")
  fix s rest
  assume rest: "rest = dropWhile (\<lambda>c. \<not> is_digit c) s" and ne: "rest \<noteq> []"
  then have "is_digit (hd rest)" by (metis hd_dropWhile)
  with ne have "length (dropWhile is_digit rest) < length rest"
    by (cases rest) (auto intro: le_imp_less_Suc length_dropWhile_le)
  also have "length rest \<le> length s" unfolding rest by (rule length_dropWhile_le)
  finally show "(dropWhile is_digit rest, s) \<in> measure length" by simp
qed simp

declare re_split.simps [simp del]

text \<open>
  The first loop of \<open>form_to_comp\<close>, \<open>for i_i, i in enumerate(split_str)\<close>: a token that
  ends in \<open>-\<close> loses it and sets \<open>negative\<close>; a non-empty token at an odd index gets a
  \<open>-\<close> in front once \<open>negative\<close> is set. The flag is never cleared. The function returns
  \<open>split_str\<close> as the loop leaves it.
\<close>

fun sign_loop :: "nat \<Rightarrow> bool \<Rightarrow> string list \<Rightarrow> string list" where
  "sign_loop i_i negative [] = []"
| "sign_loop i_i negative (i # rest) =
     (let strip = (i \<noteq> [] \<and> last i = CHR ''-'');
          t1 = (if strip then butlast i else i);
          negative' = (if strip then True else negative);
          t2 = (if i_i mod 2 \<noteq> 0 \<and> i \<noteq> [] \<and> negative' then CHR ''-'' # i else t1)
      in t2 # sign_loop (Suc i_i) negative' rest)"

text \<open>
  The second loop, \<open>for i in range(len(split_str)-1)\<close>, over the indices still to visit:
  at an even index, \<open>counts[split_str[i]] = int(split_str[i+1])\<close>.
\<close>

fun counts_loop ::
  "string list \<Rightarrow> nat list \<Rightarrow> (string, int) dict \<Rightarrow> py_error + (string, int) dict" where
  "counts_loop split_str [] counts = Inr counts"
| "counts_loop split_str (i # rest) counts =
     (if i mod 2 = 0 then
        (case py_int (split_str ! (i + 1)) of
           None \<Rightarrow> Inl ValueError
         | Some n \<Rightarrow> counts_loop split_str rest (dict_set counts (split_str ! i) n))
      else counts_loop split_str rest counts)"

definition form_to_comp :: "string \<Rightarrow> py_error + (string, int) dict" where
  "form_to_comp string =
     (let split_str = sign_loop 0 False (re_split string);
          split_str' = (if length split_str mod 2 \<noteq> 0 then split_str @ [''1''] else split_str)
      in case counts_loop split_str' [0..<length split_str' - 1] [] of
           Inl e \<Rightarrow> Inl e
         | Inr counts \<Rightarrow>
             Inr (if [] \<in> set (dict_keys counts) then dict_del counts [] else counts))"

text \<open>\<open>form_to_charge\<close>: the sum of the counts of the parsed formula.\<close>

definition form_to_charge :: "string \<Rightarrow> py_error + int" where
  "form_to_charge string =
     (case form_to_comp string of
        Inl e \<Rightarrow> Inl e
      | Inr counts \<Rightarrow>
          Inr (foldl (\<lambda>charge (i, v). if i \<noteq> [] then charge + v else charge) 0 counts))"

















section \<open>Theorems\<close>

subsection \<open>calculate\_comp\_from\_mass\<close>

text \<open>
  Claim C10. For the target mass 0 the initial \<open>atoms_number\<close> is \<open>int(0/5) = 0\<close>, the
  loop condition \<open>0 > 0/2\<close> is false at once, and the function returns the initial pair:
  the empty composition with mass 0, whatever the mass function is.
\<close>

theorem calculate_comp_from_mass_zero:
  "calculate_comp_from_mass calculate_mass 0 = ([], 0)"
  by (simp add: calculate_comp_from_mass_def py_int_of_float_def)

subsection \<open>rt\_noise\_level\_parameters\_set\<close>

lemma np_std_zeros: "np_std [0, 0, 0, 0, 0] = 0"
  by (simp add: np_std_def np_mean_def)

text \<open>
  Claim C4, as stated: the all-zero intensity list in mode \<open>whole\<close> gives 1.0. It does
  not: the standard deviation is 0, so the threshold \<open>2 * std\<close> is 0, neither guard of the
  \<open>if\<close> holds (\<open>min = 0\<close> switches the first one off, and \<open>0 > 0 * 0.5\<close> is false), and the
  \<open>else\<close> branch appends the threshold itself.
\<close>

theorem noise_all_zero_counterexample:
  "rt_noise_level_parameters_set ([100, 200, 300, 400, 500], [0, 0, 0, 0, 0]) ''whole''
     \<noteq> Inr (Whole 1)"
  by (simp add: rt_noise_level_parameters_set_def segment_noise_def np_std_zeros)

text \<open>
  Claim C4, amended: on the all-zero intensity list \<open>[0,0,0,0,0]\<close> in mode \<open>whole\<close> the
  function returns 0.0, the threshold \<open>2 * std\<close>, for every m/z list.
\<close>

theorem noise_all_zero:
  "rt_noise_level_parameters_set (mz, [0, 0, 0, 0, 0]) ''whole'' = Inr (Whole 0)"
  by (simp add: rt_noise_level_parameters_set_def segment_noise_def np_std_zeros)

subsection \<open>linear\_regression\<close>














subsection \<open>glycan\_to\_atoms\<close>

lemma permethylate_entry_eq:
  "permethylate_entry (i, m) = (i, add_CH (incr_C i) (incr_H i) m)"
  by (auto simp: permethylate_entry_def incr_C_def incr_H_def add_CH_def Let_def)

lemma map_of_permethylate:
  "map_of (permethylate table) i = map_option (add_CH (incr_C i) (incr_H i)) (map_of table i)"
  by (induction table) (auto simp: permethylate_def permethylate_entry_eq)

lemma atoms_loop_permethylate:
  assumes "atoms_loop table gc a = Inr r"
  shows "atoms_loop (permethylate table) gc b =
           Inr \<lparr>atom_C = atom_C r + (atom_C b - atom_C a) + (\<Sum>(i, n)\<leftarrow>gc. incr_C i * n),
                atom_O = atom_O r + (atom_O b - atom_O a),
                atom_N = atom_N r + (atom_N b - atom_N a),
                atom_H = atom_H r + (atom_H b - atom_H a) + (\<Sum>(i, n)\<leftarrow>gc. incr_H i * n)\<rparr>"
  using assms
proof (induction gc arbitrary: a b)
  case Nil
  then show ?case by simp
next
  case (Cons p gc)
  obtain i n where p: "p = (i, n)" by (cases p)
  show ?case
  proof (cases "i = ''T''")
    case True
    with Cons.prems p have "atoms_loop table gc a = Inr r" by simp
    from Cons.IH [OF this, of b] True p show ?thesis
      by (simp add: incr_C_def incr_H_def)
  next
    case False
    with Cons.prems p obtain m where m: "map_of table i = Some m"
      by (auto split: option.splits)
    let ?a = "\<lparr>atom_C = atom_C a + atom_C (mono_residue m) * n,
               atom_O = atom_O a + atom_O (mono_residue m) * n,
               atom_N = atom_N a + atom_N (mono_residue m) * n,
               atom_H = atom_H a + atom_H (mono_residue m) * n\<rparr>"
    from Cons.prems p False m have "atoms_loop table gc ?a = Inr r" by simp
    from Cons.IH [OF this] False p m show ?thesis
      by (simp add: map_of_permethylate add_CH_def algebra_simps)
  qed
qed

lemma extra_pos:
  fixes f :: "string \<Rightarrow> int"
  assumes "\<forall>(i, n) \<in> set gc. 0 \<le> n" and "\<forall>i. 0 \<le> f i"
    and "(i, n) \<in> set gc" and "0 < f i" and "0 < n"
  shows "0 < (\<Sum>(i, n)\<leftarrow>gc. f i * n)"
  using assms(1,3)
proof (induction gc)
  case Nil
  then show ?case by simp
next
  case (Cons p gc)
  obtain j k where p: "p = (j, k)" by (cases p)
  have nn: "0 \<le> (\<Sum>(i, n)\<leftarrow>gc. f i * n)"
    using Cons.prems(1) assms(2) by (intro sum_list_nonneg) auto
  have hd: "0 \<le> f j * k" using Cons.prems(1) p assms(2) by simp
  show ?case
  proof (cases "p = (i, n)")
    case True
    with p assms(4,5) have "0 < f j * k" by simp
    with nn p show ?thesis by simp
  next
    case False
    with Cons have "0 < (\<Sum>(i, n)\<leftarrow>gc. f i * n)" by auto
    with hd p show ?thesis by simp
  qed
qed

text \<open>
  Claim C9, amended: a call with \<open>permethylated = True\<close> leaves the table with the
  methylation increments added to every entry (3 C and 6 H for \<open>H\<close> and \<open>N\<close>, 2 C and 4 H
  for \<open>F\<close>, 5 C and 10 H for \<open>S\<close> and \<open>G\<close>, nothing for \<open>lS\<close> and \<open>eS\<close>). So
  when a permethylated call returns, on a composition whose counts are all non-negative and
  in which one of the residues \<open>H\<close>, \<open>N\<close>, \<open>F\<close>, \<open>S\<close>, \<open>G\<close> has a positive count, a
  second permethylated call on the same composition returns too, with strictly larger C and
  H counts and the same O and N counts.
\<close>

theorem permethylation_double_added:
  assumes "glycan_to_atoms table gc True = (Inr a1, table1)"
    and "\<forall>(i, n) \<in> set gc. 0 \<le> n"
    and "(i, n) \<in> set gc" and "i \<in> {''H'', ''N'', ''F'', ''S'', ''G''}" and "0 < n"
  shows "(\<forall>k. map_of table1 k = map_option (add_CH (incr_C k) (incr_H k)) (map_of table k))
       \<and> (\<exists>a2. glycan_to_atoms table1 gc True = (Inr a2, permethylate table1)
              \<and> atom_C a1 < atom_C a2 \<and> atom_H a1 < atom_H a2
              \<and> atom_O a2 = atom_O a1 \<and> atom_N a2 = atom_N a1)"
proof -
  let ?z = "\<lparr>atom_C = 0, atom_O = 0, atom_N = 0, atom_H = 0\<rparr>"
  from assms(1) have t1: "table1 = permethylate table"
    and a1: "atoms_loop table1 gc ?z = Inr a1"
    by (auto simp: glycan_to_atoms_def Let_def)
  have C: "0 < (\<Sum>(i, n)\<leftarrow>gc. incr_C i * n)"
    using assms(2) _ assms(3) _ assms(5)
    by (rule extra_pos) (use assms(4) in \<open>auto simp: incr_C_def\<close>)
  have H: "0 < (\<Sum>(i, n)\<leftarrow>gc. incr_H i * n)"
    using assms(2) _ assms(3) _ assms(5)
    by (rule extra_pos) (use assms(4) in \<open>auto simp: incr_H_def\<close>)
  from atoms_loop_permethylate [OF a1, of ?z] C H
  have "\<exists>a2. glycan_to_atoms table1 gc True = (Inr a2, permethylate table1)
              \<and> atom_C a1 < atom_C a2 \<and> atom_H a1 < atom_H a2
              \<and> atom_O a2 = atom_O a1 \<and> atom_N a2 = atom_N a1"
    by (simp add: glycan_to_atoms_def Let_def)
  with t1 show ?thesis by (simp add: map_of_permethylate)
qed

text \<open>
  Claim C9, as stated, asks only for one residue other than \<open>T\<close>. The lactonized and the
  ethyl-esterified sialic acids (\<open>lS\<close>, \<open>eS\<close>) get no increment: on the composition
  \<open>{lS: 1}\<close> the second permethylated call returns the counts of the first.
\<close>

theorem permethylation_lS_counterexample:
  "fst (glycan_to_atoms monosaccharides [(''lS'', 1)] True)
     = Inr \<lparr>atom_C = 11, atom_O = 7, atom_N = 2, atom_H = 18\<rparr>
   \<and> fst (glycan_to_atoms (snd (glycan_to_atoms monosaccharides [(''lS'', 1)] True))
           [(''lS'', 1)] True)
     = Inr \<lparr>atom_C = 11, atom_O = 7, atom_N = 2, atom_H = 18\<rparr>"
  by (simp add: glycan_to_atoms_def monosaccharides_def permethylate_def
      permethylate_entry_def add_CH_def Let_def)

text \<open>
  The amended claim at the composition \<open>{H: 5, N: 4}\<close>, from the table as the module
  defines it.
\<close>

lemma first_call_example:
  "glycan_to_atoms monosaccharides [(''H'', 5), (''N'', 4)] True
     = (Inr \<lparr>atom_C = 89, atom_O = 45, atom_N = 4, atom_H = 156\<rparr>, permethylate monosaccharides)"
  by (simp add: glycan_to_atoms_def monosaccharides_def permethylate_def
      permethylate_entry_def add_CH_def Let_def)

theorem permethylation_double_added_witness:
  "glycan_to_atoms monosaccharides [(''H'', 5), (''N'', 4)] True
     = (Inr \<lparr>atom_C = 89, atom_O = 45, atom_N = 4, atom_H = 156\<rparr>, permethylate monosaccharides)
   \<and> (\<exists>a2. glycan_to_atoms (permethylate monosaccharides) [(''H'', 5), (''N'', 4)] True
              = (Inr a2, permethylate (permethylate monosaccharides))
          \<and> 89 < atom_C a2 \<and> 156 < atom_H a2 \<and> atom_O a2 = 45 \<and> atom_N a2 = 4)"
  using permethylation_double_added [OF first_call_example, of "''H''" 5]
  by (simp add: first_call_example)

subsection \<open>gen\_adducts\_combo\<close>

lemma cwr_length:
  "t \<in> set (combinations_with_replacement xs r) \<Longrightarrow> length t = r"
  by (induction xs r arbitrary: t rule: combinations_with_replacement.induct) auto

lemma dict_set_sum_absent:
  fixes f :: "int \<Rightarrow> int"
  shows "map_of d j = None \<Longrightarrow> (\<Sum>(k, w)\<leftarrow>dict_set d j v. f w) = (\<Sum>(k, w)\<leftarrow>d. f w) + f v"
  by (induction d) (auto split: if_splits)

lemma dict_set_sum_present:
  fixes f :: "int \<Rightarrow> int"
  shows "map_of d j = Some u \<Longrightarrow>
     (\<Sum>(k, w)\<leftarrow>dict_set d j v. f w) = (\<Sum>(k, w)\<leftarrow>d. f w) - f u + f v"
  by (induction d) (auto split: if_splits)

lemma dict_set_values:
  "(k, w) \<in> set (dict_set d j v) \<Longrightarrow> (k, w) \<in> set d \<or> w = v"
  by (induction d) (auto split: if_splits)

lemma map_of_SomeD_set: "map_of d j = Some u \<Longrightarrow> (j, u) \<in> set d"
  by (rule map_of_SomeD)

text \<open>
  In positive mode every count of \<open>temp_dict\<close> is positive and each occurrence adds 1 to
  the total absolute count; in negative mode every count is negative, with the same total.
\<close>

lemma temp_dict_pos:
  assumes "0 < mc" and "\<forall>(k, w) \<in> set d. 0 < w"
  shows "(\<forall>(k, w) \<in> set (foldl (temp_dict_step mc) d t). 0 < w)
       \<and> (\<Sum>(k, w)\<leftarrow>foldl (temp_dict_step mc) d t. \<bar>w\<bar>) = (\<Sum>(k, w)\<leftarrow>d. \<bar>w\<bar>) + int (length t)"
  using assms(2)
proof (induction t arbitrary: d)
  case Nil
  then show ?case by simp
next
  case (Cons j t)
  let ?d = "temp_dict_step mc d j"
  have pos: "\<forall>(k, w) \<in> set ?d. 0 < w"
  proof (cases "map_of d j")
    case None
    with assms(1) Cons.prems show ?thesis
      by (auto simp: temp_dict_step_def dest!: dict_set_values)
  next
    case (Some u)
    then have "0 < u" using Cons.prems by (auto dest: map_of_SomeD)
    with Some assms(1) Cons.prems show ?thesis
      by (auto simp: temp_dict_step_def dest!: dict_set_values)
  qed
  have sum: "(\<Sum>(k, w)\<leftarrow>?d. \<bar>w\<bar>) = (\<Sum>(k, w)\<leftarrow>d. \<bar>w\<bar>) + 1"
  proof (cases "map_of d j")
    case None
    with assms(1) show ?thesis
      by (simp add: temp_dict_step_def dict_set_sum_absent)
  next
    case (Some u)
    then have "0 < u" using Cons.prems by (auto dest: map_of_SomeD)
    with Some assms(1) show ?thesis
      by (simp add: temp_dict_step_def dict_set_sum_present)
  qed
  from Cons.IH [OF pos] sum show ?case by simp
qed

lemma temp_dict_neg:
  assumes "\<not> 0 < mc" and "\<forall>(k, w) \<in> set d. w < 0"
  shows "(\<forall>(k, w) \<in> set (foldl (temp_dict_step mc) d t). w < 0)
       \<and> (\<Sum>(k, w)\<leftarrow>foldl (temp_dict_step mc) d t. \<bar>w\<bar>) = (\<Sum>(k, w)\<leftarrow>d. \<bar>w\<bar>) + int (length t)"
  using assms(2)
proof (induction t arbitrary: d)
  case Nil
  then show ?case by simp
next
  case (Cons j t)
  let ?d = "temp_dict_step mc d j"
  have neg: "\<forall>(k, w) \<in> set ?d. w < 0"
  proof (cases "map_of d j")
    case None
    with assms(1) Cons.prems show ?thesis
      by (auto simp: temp_dict_step_def dest!: dict_set_values)
  next
    case (Some u)
    then have "u < 0" using Cons.prems by (auto dest: map_of_SomeD)
    with Some assms(1) Cons.prems show ?thesis
      by (auto simp: temp_dict_step_def dest!: dict_set_values)
  qed
  have sum: "(\<Sum>(k, w)\<leftarrow>?d. \<bar>w\<bar>) = (\<Sum>(k, w)\<leftarrow>d. \<bar>w\<bar>) + 1"
  proof (cases "map_of d j")
    case None
    with assms(1) show ?thesis
      by (simp add: temp_dict_step_def dict_set_sum_absent)
  next
    case (Some u)
    then have "u < 0" using Cons.prems by (auto dest: map_of_SomeD)
    with Some assms(1) show ?thesis
      by (simp add: temp_dict_step_def dict_set_sum_present)
  qed
  from Cons.IH [OF neg] sum show ?case by simp
qed

lemma make_temp_dict_total:
  "(\<Sum>(k, w)\<leftarrow>make_temp_dict mc t. \<bar>w\<bar>) = int (length t)"
proof (cases "0 < mc")
  case True
  from temp_dict_pos [OF True, of "[]" t] show ?thesis by (simp add: make_temp_dict_def)
next
  case False
  from temp_dict_neg [OF False, of "[]" t] show ?thesis by (simp add: make_temp_dict_def)
qed


text \<open>
  The filter lets a combination through exactly when every count is within its maximum.
  Removal is by equality of dicts, so the proof counts, for a dict \<open>K\<close>, the elements equal
  to \<open>K\<close> in the list, in \<open>to_remove\<close> and in the result.
\<close>

lemma exceeds_False_iff:
  "exceeds adducts c = Inr False \<longleftrightarrow>
     (\<forall>(j, v) \<in> set c. \<exists>a. map_of adducts j = Some a \<and> \<bar>v\<bar> \<le> \<bar>a\<bar>)"
  by (induction c) (auto split: option.splits if_splits)

lemma exceeds_cases:
  "exceeds adducts c = Inl KeyError \<or> exceeds adducts c = Inr True \<or> exceeds adducts c = Inr False"
  by (induction c) (auto split: option.splits)

lemma list_remove_count:
  assumes "list_remove x xs = Inr ys"
  shows "length (filter (dict_eq K) xs)
           = length (filter (dict_eq K) ys) + (if dict_eq K x then 1 else 0)"
  using assms
proof (induction xs arbitrary: ys)
  case Nil
  then show ?case by simp
next
  case (Cons y xs)
  show ?case
  proof (cases "dict_eq y x")
    case True
    with Cons.prems have "ys = xs" by simp
    moreover from True have "dict_eq K y = dict_eq K x" by (auto simp: dict_eq_def)
    ultimately show ?thesis by simp
  next
    case False
    with Cons.prems obtain ys' where "list_remove x xs = Inr ys'" and "ys = y # ys'"
      by (auto split: sum.splits)
    with Cons.IH [of ys'] show ?thesis by simp
  qed
qed

lemma list_remove_subset: "list_remove x xs = Inr ys \<Longrightarrow> set ys \<subseteq> set xs"
  by (induction xs arbitrary: ys) (auto split: if_splits sum.splits)

lemma remove_loop_count:
  "remove_loop tr xs = Inr ys \<Longrightarrow>
     length (filter (dict_eq K) xs)
       = length (filter (dict_eq K) ys) + length (filter (dict_eq K) tr)"
proof (induction tr arbitrary: xs)
  case Nil
  then show ?case by simp
next
  case (Cons i tr)
  from Cons.prems obtain rest where r: "list_remove i xs = Inr rest"
    and l: "remove_loop tr rest = Inr ys"
    by (auto split: sum.splits)
  from list_remove_count [OF r, of K] Cons.IH [OF l] show ?case by simp
qed

lemma remove_loop_subset: "remove_loop tr xs = Inr ys \<Longrightarrow> set ys \<subseteq> set xs"
proof (induction tr arbitrary: xs)
  case Nil
  then show ?case by simp
next
  case (Cons i tr)
  from Cons.prems obtain rest where r: "list_remove i xs = Inr rest"
    and l: "remove_loop tr rest = Inr ys"
    by (auto split: sum.splits)
  from list_remove_subset [OF r] Cons.IH [OF l] show ?case by blast
qed

lemma to_remove_loop_count:
  assumes "to_remove_loop adducts exclusions xs = Inr tr"
    and "exceeds adducts K \<noteq> Inr False"
  shows "length (filter (dict_eq K) xs) \<le> length (filter (dict_eq K) tr)"
  using assms(1)
proof (induction xs arbitrary: tr)
  case Nil
  then show ?case by simp
next
  case (Cons i xs)
  from Cons.prems obtain ex tr' where ex: "exceeds adducts i = Inr ex"
    and tr': "to_remove_loop adducts exclusions xs = Inr tr'"
    and tr: "tr = (if ex then [i] else [])
                  @ (if list_ex (\<lambda>x. dict_eq x i) exclusions then [i] else []) @ tr'"
    by (auto split: sum.splits)
  have "ex" if "dict_eq K i"
  proof (rule ccontr)
    assume "\<not> ex"
    with ex have "exceeds adducts i = Inr False" by simp
    with that have "exceeds adducts K = Inr False"
      unfolding exceeds_False_iff dict_eq_def by simp
    with assms(2) show False by simp
  qed
  with Cons.IH [OF tr'] tr show ?case by auto
qed

lemma combos_length:
  assumes "t \<in> set (concat (map (\<lambda>i. combinations_with_replacement xs i) [1..<nat \<bar>mc\<bar> + 1]))"
  shows "1 \<le> int (length t) \<and> int (length t) \<le> \<bar>mc\<bar>"
proof -
  from assms obtain i where "1 \<le> i" "i < nat \<bar>mc\<bar> + 1"
    and "t \<in> set (combinations_with_replacement xs i)" by auto
  with cwr_length [of t xs i] show ?thesis by auto
qed

lemma gen_adducts_combo_member:
  assumes "gen_adducts_combo adducts exclusions max_charge = Inr result"
    and "c \<in> set result"
  shows "(\<forall>(j, v) \<in> set c. \<exists>a. map_of adducts j = Some a \<and> \<bar>v\<bar> \<le> \<bar>a\<bar>)
       \<and> 1 \<le> (\<Sum>(j, v)\<leftarrow>c. \<bar>v\<bar>) \<and> (\<Sum>(j, v)\<leftarrow>c. \<bar>v\<bar>) \<le> \<bar>max_charge\<bar>"
proof -
  define combos where "combos = concat (map (\<lambda>i. combinations_with_replacement (map fst adducts) i)
                      [1..<nat \<bar>max_charge\<bar> + 1])"
  define ds where "ds = map (make_temp_dict max_charge) combos"
  from assms(1) obtain tr where tr: "to_remove_loop adducts exclusions ds = Inr tr"
    and res: "remove_loop tr ds = Inr result"
    by (auto simp: gen_adducts_combo_def Let_def combos_def ds_def split: sum.splits)
  from remove_loop_subset [OF res] assms(2) have "c \<in> set ds" by auto
  then obtain t where t: "t \<in> set combos" and c: "c = make_temp_dict max_charge t"
    by (auto simp: ds_def)
  from combos_length [of t "map fst adducts" max_charge] t
  have len: "1 \<le> int (length t) \<and> int (length t) \<le> \<bar>max_charge\<bar>"
    by (simp add: combos_def)
  have good: "exceeds adducts c = Inr False"
  proof (rule ccontr)
    assume bad: "exceeds adducts c \<noteq> Inr False"
    from assms(2) have "0 < length (filter (dict_eq c) result)"
      by (auto simp: filter_empty_conv dict_eq_def)
    with remove_loop_count [OF res, of c] to_remove_loop_count [OF tr bad]
    show False by simp
  qed
  from good len c show ?thesis
    by (simp add: exceeds_False_iff make_temp_dict_total)
qed

lemma gen_adducts_combo_zero: "gen_adducts_combo adducts exclusions 0 = Inr []"
  by (simp add: gen_adducts_combo_def)

text \<open>
  Claim C7. When \<open>max_charge\<close> is 0 the result is the empty list. Whenever the function
  returns, every combination \<open>c\<close> of the result has, for each symbol, a count whose
  absolute value is at most that of the declared maximum \<open>adducts[symbol]\<close>, and the sum of
  the absolute counts of \<open>c\<close> lies between 1 and \<open>\<bar>max_charge\<bar>\<close>.
\<close>

theorem gen_adducts_combo_bounds:
  "gen_adducts_combo adducts exclusions 0 = Inr []
   \<and> (\<forall>max_charge result c.
        gen_adducts_combo adducts exclusions max_charge = Inr result \<longrightarrow> c \<in> set result \<longrightarrow>
        (\<forall>(j, v) \<in> set c. \<exists>a. map_of adducts j = Some a \<and> \<bar>v\<bar> \<le> \<bar>a\<bar>)
        \<and> 1 \<le> (\<Sum>(j, v)\<leftarrow>c. \<bar>v\<bar>) \<and> (\<Sum>(j, v)\<leftarrow>c. \<bar>v\<bar>) \<le> \<bar>max_charge\<bar>)"
  using gen_adducts_combo_zero gen_adducts_combo_member by blast

text \<open>
  The claim's example: \<open>generate({"H": 3, "Na": 1}, {}, 3)\<close> returns six combinations, and
  \<open>{H: 2, Na: 1}\<close>, one of them, is within the bounds.
\<close>

lemma gen_adducts_combo_example:
  "gen_adducts_combo [(''H'', 3), (''Na'', 1)] [] 3 =
     Inr [[(''H'', 1)], [(''Na'', 1)], [(''H'', 2)], [(''H'', 1), (''Na'', 1)],
          [(''H'', 3)], [(''H'', 2), (''Na'', 1)]]"
  by code_simp

theorem gen_adducts_combo_bounds_witness:
  "gen_adducts_combo [(''H'', 3), (''Na'', 1)] [] 3 =
     Inr [[(''H'', 1)], [(''Na'', 1)], [(''H'', 2)], [(''H'', 1), (''Na'', 1)],
          [(''H'', 3)], [(''H'', 2), (''Na'', 1)]]
   \<and> [(''H'', 2), (''Na'', 1)] \<in> set [[(''H'', 1)], [(''Na'', 1)], [(''H'', 2)],
          [(''H'', 1), (''Na'', 1)], [(''H'', 3)], [(''H'', 2), (''Na'', 1)]]
   \<and> (1::int) \<le> (\<Sum>(j, v)\<leftarrow>[(''H'', 2), (''Na'', 1 :: int)]. \<bar>v\<bar>)
   \<and> (\<Sum>(j, v)\<leftarrow>[(''H'', 2), (''Na'', 1 :: int)]. \<bar>v\<bar>) \<le> \<bar>3::int\<bar>
   \<and> (\<exists>a. map_of [(''H'', 3), (''Na'', 1 :: int)] ''H'' = Some a \<and> \<bar>2\<bar> \<le> \<bar>a\<bar>)
   \<and> (\<exists>a. map_of [(''H'', 3), (''Na'', 1 :: int)] ''Na'' = Some a \<and> \<bar>1\<bar> \<le> \<bar>a\<bar>)"
proof -
  have m: "[(''H'', 2), (''Na'', 1)] \<in> set [[(''H'', 1)], [(''Na'', 1)], [(''H'', 2)],
          [(''H'', 1), (''Na'', 1)], [(''H'', 3)], [(''H'', 2), (''Na'', 1 :: int)]]" by simp
  from gen_adducts_combo_bounds [of "[(''H'', 3), (''Na'', 1)]" "[]"]
    gen_adducts_combo_example m
  have "(\<forall>(j, v) \<in> set [(''H'', 2), (''Na'', 1 :: int)].
            \<exists>a. map_of [(''H'', 3), (''Na'', 1 :: int)] j = Some a \<and> \<bar>v\<bar> \<le> \<bar>a\<bar>)
        \<and> 1 \<le> (\<Sum>(j, v)\<leftarrow>[(''H'', 2), (''Na'', 1 :: int)]. \<bar>v\<bar>)
        \<and> (\<Sum>(j, v)\<leftarrow>[(''H'', 2), (''Na'', 1 :: int)]. \<bar>v\<bar>) \<le> \<bar>3::int\<bar>"
    by blast
  with gen_adducts_combo_example m show ?thesis by simp
qed

text \<open>
  Claim C3 says that the function never raises. A combination that exceeds a maximum and
  is in \<open>exclusions\<close> as well is appended to \<open>to_remove\<close> twice; the second
  \<open>adducts_combo_dict.remove\<close> finds nothing to remove and raises \<open>ValueError\<close>. Here
  the maxima are \<open>{H: 3, Na: 1}\<close>, the exclusions are \<open>[{Na: 2}]\<close> and \<open>max_charge\<close> is 3.
\<close>

theorem gen_adducts_combo_raises:
  "gen_adducts_combo [(''H'', 3), (''Na'', 1)] [[(''Na'', 2)]] 3 = Inl ValueError"
  by code_simp

subsection \<open>calculate\_isotopic\_pattern\<close>










subsection \<open>form\_to\_comp\<close>













text \<open>The two examples of \<open>form_to_charge\<close> in the documentation of the core.\<close>

lemma form_to_charge_examples:
  "form_to_charge ''H3Na1'' = Inr 4" "form_to_charge ''H-2'' = Inr (- 2)"
  by code_simp+


text \<open>
  Claim C6 says that a symbol ending in \<open>-\<close> negates the one number that follows it. The
  flag \<open>negative\<close> is set at such a symbol and never cleared, so every later number is
  negated too: in \<open>H-2Na1\<close>, which is what \<open>comp_to_formula\<close> writes for
  \<open>{H: -2, Na: 1}\<close>, the count of \<open>Na\<close> is read as \<open>-1\<close>.
\<close>

theorem form_to_comp_sign_leak: "form_to_comp ''H-2Na1'' = Inr [(''H'', - 2), (''Na'', - 1)]"
  by code_simp










































end
